theory Spec2Isabelle
  imports Main "HOL-Library.Word"
begin

section \<open>The CAT protocol of the X6100 GUI (src/src/cat.c)\<close>

text \<open>
  A shallow embedding of \<^verbatim>\<open>cat.c\<close>: the framer \<^verbatim>\<open>frame_get\<close>, the address
  rewriter \<^verbatim>\<open>prepare_answer\<close>, the senders \<^verbatim>\<open>send_frame\<close> and \<^verbatim>\<open>send_code\<close>,
  the mode translators, the dispatcher \<^verbatim>\<open>frame_parse\<close> and the loop \<^verbatim>\<open>cat_thread\<close>.
  The static variables of the file (\<^verbatim>\<open>frame\<close>, the serial port behind \<^verbatim>\<open>fd\<close>) and
  the radio parameters the file reads and writes are the fields of one state record
  that every function takes and returns.
\<close>

subsection \<open>Wire constants\<close>

type_synonym byte = "8 word"

abbreviation (input) FRAME_PRE :: byte where "FRAME_PRE \<equiv> 0xFE"
abbreviation (input) FRAME_END :: byte where "FRAME_END \<equiv> 0xFD"

abbreviation (input) CODE_OK :: byte where "CODE_OK \<equiv> 0xFB"
abbreviation (input) CODE_NG :: byte where "CODE_NG \<equiv> 0xFA"

abbreviation (input) C_RD_FREQ :: byte where "C_RD_FREQ \<equiv> 0x03"
abbreviation (input) C_RD_MODE :: byte where "C_RD_MODE \<equiv> 0x04"
abbreviation (input) C_SET_FREQ :: byte where "C_SET_FREQ \<equiv> 0x05"
abbreviation (input) C_SET_MODE :: byte where "C_SET_MODE \<equiv> 0x06"
abbreviation (input) C_SET_VFO :: byte where "C_SET_VFO \<equiv> 0x07"
abbreviation (input) C_CTL_PTT :: byte where "C_CTL_PTT \<equiv> 0x1C"
abbreviation (input) C_SEND_SEL_FREQ :: byte where "C_SEND_SEL_FREQ \<equiv> 0x25"
abbreviation (input) C_SEND_SEL_MODE :: byte where "C_SEND_SEL_MODE \<equiv> 0x26"

abbreviation (input) S_VFOA :: byte where "S_VFOA \<equiv> 0x00"
abbreviation (input) S_VFOB :: byte where "S_VFOB \<equiv> 0x01"

abbreviation (input) M_LSB :: byte where "M_LSB \<equiv> 0x00"
abbreviation (input) M_USB :: byte where "M_USB \<equiv> 0x01"
abbreviation (input) M_AM :: byte where "M_AM \<equiv> 0x02"
abbreviation (input) M_CW :: byte where "M_CW \<equiv> 0x03"
abbreviation (input) M_NFM :: byte where "M_NFM \<equiv> 0x05"
abbreviation (input) M_CWR :: byte where "M_CWR \<equiv> 0x07"

subsection \<open>Radio parameters and the state of the protocol task\<close>

text \<open>
  \<^verbatim>\<open>x6100_vfo_t\<close> and \<^verbatim>\<open>x6100_mode_t\<close> are enums of the radio control library;
  their constructors are the names \<^verbatim>\<open>cat.c\<close> uses. \<^verbatim>\<open>params_band.vfo_x\<close> is an
  array indexed by the VFO, of which the file touches \<^verbatim>\<open>freq\<close> and \<^verbatim>\<open>mode\<close>.
\<close>

datatype x6100_vfo = X6100_VFO_A | X6100_VFO_B

datatype x6100_mode =
    x6100_mode_lsb | x6100_mode_lsb_dig
  | x6100_mode_usb | x6100_mode_usb_dig
  | x6100_mode_cw | x6100_mode_cwr
  | x6100_mode_am | x6100_mode_nfm

datatype radio_state = RADIO_RX | RADIO_TX

type_synonym band = nat

record vfo_params =
  freq :: "64 word"
  mode :: x6100_mode

text \<open>The calls the protocol task makes into the radio bridge and the event bus.\<close>

datatype call =
    Radio_set_freq "64 word"
  | Radio_set_mode x6100_vfo x6100_mode
  | Radio_set_vfo x6100_vfo
  | Radio_set_ptt bool
  | Bands_activate band
  | Event_screen_update

text \<open>
  \<open>frame\<close> is \<^verbatim>\<open>static uint8_t frame[256]\<close>. \<open>rx\<close> holds the bytes the serial port
  will deliver to \<^verbatim>\<open>read(fd, &c, 1)\<close>, oldest first; \<open>tx\<close> holds what each
  \<^verbatim>\<open>write(fd, frame, len)\<close> was asked to send, oldest first. \<open>vfo\<close> and \<open>vfo_x\<close> are
  \<^verbatim>\<open>params_band.vfo\<close> and \<^verbatim>\<open>params_band.vfo_x\<close>, \<open>freq_band\<close> is
  \<^verbatim>\<open>params.freq_band\<close>, \<open>bands\<close> the band table that \<^verbatim>\<open>params_bands_find\<close> searches,
  \<open>state\<close> what \<^verbatim>\<open>radio_get_state()\<close> reports, and \<open>calls\<close> the trace of bridge calls.
\<close>

record cat_state =
  frame :: "byte list"
  rx :: "byte list"
  tx :: "byte list list"
  vfo :: x6100_vfo
  vfo_x :: "x6100_vfo \<Rightarrow> vfo_params"
  freq_band :: band
  bands :: "64 word \<Rightarrow> band option"
  state :: radio_state
  calls :: "call list"

text \<open>
  Two places of \<^verbatim>\<open>cat.c\<close> leave the C language's defined behaviour: a store to
  \<^verbatim>\<open>frame[len - 1]\<close> outside the buffer, and the return of the local \<^verbatim>\<open>r_mode\<close>
  that no branch of \<^verbatim>\<open>ci_mode_2_x_mode\<close> assigned. The model stops there and
  returns the fault with the state it was reached in.
\<close>

datatype fault = Out_of_bounds_store | Uninitialised_mode

type_synonym outcome = "(fault \<times> cat_state) + cat_state"

fun state_of :: "outcome \<Rightarrow> cat_state" where
  "state_of (Inl (f, st)) = st"
| "state_of (Inr st) = st"

subsection \<open>BCD codec (util.c, not part of the excerpt)\<close>

text \<open>
  Modelled from the spec: \<^verbatim>\<open>to_bcd\<close> and \<^verbatim>\<open>from_bcd\<close> are defined in
  \<^verbatim>\<open>util.c\<close>, which is missing; \<^verbatim>\<open>cat.c\<close> only calls them. Section 4.1:
  encode writes \<open>digit_count\<close> decimal digits of the value, least-significant digit
  first, two digits packed per byte (low nibble the even-position digit, high nibble
  the next digit); decode is the inverse on the same layout. The low nibble of a byte
  \<open>b\<close> is \<open>unat b mod 16\<close>, the high nibble \<open>unat b div 16\<close>.
\<close>

primrec to_bcd_bytes :: "nat \<Rightarrow> nat \<Rightarrow> byte list" where
  "to_bcd_bytes 0 v = []"
| "to_bcd_bytes (Suc n) v =
     of_nat (v mod 10 + 16 * (v div 10 mod 10)) # to_bcd_bytes n (v div 100)"

definition to_bcd :: "nat \<Rightarrow> nat \<Rightarrow> byte list" where
  "to_bcd v bcd_len = to_bcd_bytes (bcd_len div 2) v"

primrec from_bcd_bytes :: "byte list \<Rightarrow> nat" where
  "from_bcd_bytes [] = 0"
| "from_bcd_bytes (b # bs) =
     unat b mod 16 + 10 * (unat b div 16) + 100 * from_bcd_bytes bs"

definition from_bcd :: "byte list \<Rightarrow> nat \<Rightarrow> nat" where
  "from_bcd bcd_data bcd_len = from_bcd_bytes (take (bcd_len div 2) bcd_data)"

text \<open>\<^verbatim>\<open>to_bcd(&frame[off], v, n)\<close> stores the encoding at offset \<open>off\<close> of the buffer.\<close>

definition store_at :: "nat \<Rightarrow> byte list \<Rightarrow> byte list \<Rightarrow> byte list" where
  "store_at off bs fr = take off fr @ bs @ drop (off + length bs) fr"

subsection \<open>Radio bridge, band table and event bus (radio.c, params.c, events.c)\<close>

text \<open>
  Modelled from the spec: \<^verbatim>\<open>radio_set_vfo\<close> is defined outside the excerpt.
  Section 6: \<open>set_active_vfo(vfo)\<close>.
\<close>

definition radio_set_vfo :: "x6100_vfo \<Rightarrow> cat_state \<Rightarrow> cat_state" where
  "radio_set_vfo v st = st\<lparr>vfo := v, calls := calls st @ [Radio_set_vfo v]\<rparr>"

text \<open>
  Modelled from the spec: \<^verbatim>\<open>radio_set_freq\<close> is defined outside the excerpt.
  Section 6: \<open>set_frequency(integer Hz)\<close> applies to the active VFO.
\<close>

definition radio_set_freq :: "64 word \<Rightarrow> cat_state \<Rightarrow> cat_state" where
  "radio_set_freq f st =
     st\<lparr>vfo_x := (vfo_x st)(vfo st := (vfo_x st (vfo st))\<lparr>freq := f\<rparr>),
        calls := calls st @ [Radio_set_freq f]\<rparr>"

text \<open>
  Modelled from the spec: \<^verbatim>\<open>radio_set_mode\<close> is defined outside the excerpt.
  Section 6: \<open>set_mode(vfo, domain_mode)\<close>.
\<close>

definition radio_set_mode :: "x6100_vfo \<Rightarrow> x6100_mode \<Rightarrow> cat_state \<Rightarrow> cat_state" where
  "radio_set_mode v m st =
     st\<lparr>vfo_x := (vfo_x st)(v := (vfo_x st v)\<lparr>mode := m\<rparr>),
        calls := calls st @ [Radio_set_mode v m]\<rparr>"

text \<open>
  Modelled from the spec: \<^verbatim>\<open>radio_set_ptt\<close> is defined outside the excerpt.
  Section 6: \<open>set_ptt(bool)\<close>; section 4.5: the byte 0 is receive, 1 is transmit.
\<close>

definition radio_set_ptt :: "bool \<Rightarrow> cat_state \<Rightarrow> cat_state" where
  "radio_set_ptt tx_on st =
     st\<lparr>state := (if tx_on then RADIO_TX else RADIO_RX),
        calls := calls st @ [Radio_set_ptt tx_on]\<rparr>"

text \<open>
  Modelled from the spec: \<^verbatim>\<open>radio_get_state\<close> is defined outside the excerpt.
  Section 6: \<open>get_transmit_state() -> {receiving, transmitting}\<close>; the dispatcher only
  asks whether the answer is \<^verbatim>\<open>RADIO_RX\<close>.
\<close>

definition radio_get_state :: "cat_state \<Rightarrow> radio_state" where
  "radio_get_state st = state st"

text \<open>
  Modelled from the spec: \<^verbatim>\<open>params_bands_find\<close> is defined outside the excerpt.
  Section 6: \<open>lookup_band(frequency) -> band_or_none\<close>. The call
  \<^verbatim>\<open>params_bands_find(freq, &params.freq_band)\<close> fills its second argument when it
  finds a band.
\<close>

definition params_bands_find :: "64 word \<Rightarrow> cat_state \<Rightarrow> bool \<times> cat_state" where
  "params_bands_find f st =
     (case bands st f of
        None \<Rightarrow> (False, st)
      | Some b \<Rightarrow> (True, st\<lparr>freq_band := b\<rparr>))"

text \<open>
  Modelled from the spec: \<^verbatim>\<open>bands_activate\<close> is defined outside the excerpt.
  Section 4.5: the band configuration matching the new frequency is reselected if one
  exists. The call is \<^verbatim>\<open>bands_activate(&params.freq_band, NULL)\<close>.
\<close>

definition bands_activate :: "cat_state \<Rightarrow> cat_state" where
  "bands_activate st = st\<lparr>calls := calls st @ [Bands_activate (freq_band st)]\<rparr>"

text \<open>
  Modelled from the spec: \<^verbatim>\<open>event_send\<close> is defined outside the excerpt. Section 6:
  \<open>notify(screen_update_event)\<close>, fire-and-forget.
\<close>

definition event_send :: "cat_state \<Rightarrow> cat_state" where
  "event_send st = st\<lparr>calls := calls st @ [Event_screen_update]\<rparr>"

subsection \<open>The framer\<close>

text \<open>
  \<^verbatim>\<open>frame_get\<close>, lines 124-149. The loop takes the bytes of \<open>rx\<close> one at a time. A
  \<^verbatim>\<open>read\<close> that delivers nothing sleeps and retries without touching \<open>len\<close> or the
  buffer, so only the delivered bytes are steps of the model; when no byte is left the
  loop polls for ever, which is the result \<open>None\<close>. \<open>len\<close> is a \<^verbatim>\<open>uint16_t\<close>.
\<close>

fun frame_get_loop ::
  "16 word \<Rightarrow> byte list \<Rightarrow> byte list \<Rightarrow> (16 word \<times> byte list \<times> byte list) option" where
  "frame_get_loop len fr [] = None"
| "frame_get_loop len fr (c # cs) =
     (let fr' = fr[unat len := c]; len' = len + 1 in
      if c = FRAME_END then Some (len', fr', cs)
      else if 256 \<le> unat len' then Some (0, fr', cs)
      else frame_get_loop len' fr' cs)"

definition frame_get :: "cat_state \<Rightarrow> (16 word \<times> cat_state) option" where
  "frame_get st =
     (case frame_get_loop 0 (replicate 256 0) (rx st) of
        None \<Rightarrow> None
      | Some (len, fr, rest) \<Rightarrow> Some (len, st\<lparr>frame := fr, rx := rest\<rparr>))"

subsection \<open>Address rewriter and senders\<close>

text \<open>\<^verbatim>\<open>prepare_answer\<close>, lines 151-155.\<close>

definition prepare_answer :: "cat_state \<Rightarrow> cat_state" where
  "prepare_answer st =
     (let fr = frame st; fr1 = fr[2 := fr ! 3] in st\<lparr>frame := fr1[3 := 0xA4]\<rparr>)"

text \<open>
  \<^verbatim>\<open>send_frame\<close>, lines 157-160. \<open>len - 1\<close> is computed in \<^verbatim>\<open>int\<close>, so for
  \<open>len = 0\<close> the store goes to \<^verbatim>\<open>frame[-1]\<close>; for \<open>len > 256\<close> the store and the
  \<^verbatim>\<open>write\<close> leave the buffer at its other end.
\<close>

definition send_frame :: "16 word \<Rightarrow> cat_state \<Rightarrow> outcome" where
  "send_frame len st =
     (if len = 0 \<or> 256 < unat len then Inl (Out_of_bounds_store, st)
      else
        (let fr = (frame st)[unat len - 1 := FRAME_END]
         in Inr (st\<lparr>frame := fr, tx := tx st @ [take (unat len) fr]\<rparr>)))"

text \<open>\<^verbatim>\<open>send_code\<close>, lines 162-165.\<close>

definition send_code :: "byte \<Rightarrow> cat_state \<Rightarrow> outcome" where
  "send_code code st = send_frame 6 (st\<lparr>frame := (frame st)[4 := code]\<rparr>)"

subsection \<open>Frequency and VFO helpers\<close>

text \<open>\<^verbatim>\<open>set_freq\<close>, lines 167-174.\<close>

definition set_freq :: "64 word \<Rightarrow> cat_state \<Rightarrow> cat_state" where
  "set_freq f st =
     (let st1 = (case params_bands_find f st of
                   (True, st') \<Rightarrow> bands_activate st'
                 | (False, st') \<Rightarrow> st')
      in event_send (radio_set_freq f st1))"

text \<open>\<^verbatim>\<open>set_vfo\<close>, lines 235-251.\<close>

definition set_vfo :: "byte \<Rightarrow> cat_state \<Rightarrow> bool \<times> cat_state" where
  "set_vfo v st =
     (if v = S_VFOA then (True, radio_set_vfo X6100_VFO_A st)
      else if v = S_VFOB then (True, radio_set_vfo X6100_VFO_B st)
      else (False, st))"

subsection \<open>Mode translators\<close>

text \<open>
  \<^verbatim>\<open>ci_mode_2_x_mode\<close>, lines 177-204. \<open>dig_mode\<close> is a pointer: \<open>None\<close> is
  \<^verbatim>\<open>NULL\<close>. The \<^verbatim>\<open>default\<close> branch assigns nothing, so the function returns the
  uninitialised \<^verbatim>\<open>r_mode\<close>: the result \<open>None\<close>.
\<close>

definition ci_mode_2_x_mode :: "byte \<Rightarrow> byte option \<Rightarrow> x6100_mode option" where
  "ci_mode_2_x_mode m dig_mode =
     (let data_mode = (case dig_mode of None \<Rightarrow> False | Some d \<Rightarrow> d \<noteq> 0) in
      if m = M_LSB then Some (if data_mode then x6100_mode_lsb_dig else x6100_mode_lsb)
      else if m = M_USB then Some (if data_mode then x6100_mode_usb_dig else x6100_mode_usb)
      else if m = M_AM then Some x6100_mode_am
      else if m = M_CW then Some x6100_mode_cw
      else if m = M_NFM then Some x6100_mode_nfm
      else if m = M_CWR then Some x6100_mode_cwr
      else None)"

text \<open>
  \<^verbatim>\<open>x_mode_2_ci_mode\<close>, lines 206-233. The \<^verbatim>\<open>default\<close> branch (return 0) is for
  values outside the enum, which the datatype does not have.
\<close>

fun x_mode_2_ci_mode :: "x6100_mode \<Rightarrow> byte" where
  "x_mode_2_ci_mode x6100_mode_lsb = M_LSB"
| "x_mode_2_ci_mode x6100_mode_lsb_dig = M_LSB"
| "x_mode_2_ci_mode x6100_mode_usb = M_USB"
| "x_mode_2_ci_mode x6100_mode_usb_dig = M_USB"
| "x_mode_2_ci_mode x6100_mode_cw = M_CW"
| "x_mode_2_ci_mode x6100_mode_cwr = M_CWR"
| "x_mode_2_ci_mode x6100_mode_am = M_AM"
| "x_mode_2_ci_mode x6100_mode_nfm = M_NFM"

subsection \<open>The dispatcher\<close>

text \<open>
  The \<^verbatim>\<open>switch (frame[4])\<close> of \<^verbatim>\<open>frame_parse\<close>, lines 267-391, on the buffer that
  \<^verbatim>\<open>prepare_answer\<close> left. Every \<^verbatim>\<open>case\<close> is one branch, in the source's order;
  the last branch is \<^verbatim>\<open>default\<close>.
\<close>

definition frame_parse_switch :: "cat_state \<Rightarrow> outcome" where
  "frame_parse_switch st =
     (let fr = frame st; cmd = fr ! 4 in
      if cmd = C_RD_FREQ then
        send_frame 11 (st\<lparr>frame := store_at 5 (to_bcd (unat (freq (vfo_x st (vfo st)))) 10) fr\<rparr>)
      else if cmd = C_RD_MODE then
        (let v = x_mode_2_ci_mode (mode (vfo_x st (vfo st)));
             fr1 = fr[5 := v]
         in send_frame 8 (st\<lparr>frame := fr1[6 := v]\<rparr>))
      else if cmd = C_SET_FREQ then
        send_code CODE_OK (set_freq (of_nat (from_bcd (drop 5 fr) 10)) st)
      else if cmd = C_SET_MODE then
        (case ci_mode_2_x_mode (fr ! 5) None of
           None \<Rightarrow> Inl (Uninitialised_mode, st)
         | Some m \<Rightarrow> send_code CODE_OK (event_send (radio_set_mode (vfo st) m st)))
      else if cmd = C_CTL_PTT then
        (if fr ! 5 = 0x00 then
           (if fr ! 6 = FRAME_END then
              send_frame 8
                (st\<lparr>frame := fr[6 := (if radio_get_state st = RADIO_RX then 0 else 1)]\<rparr>)
            else
              (let st1 = (if fr ! 6 = 0 then radio_set_ptt False st
                          else if fr ! 6 = 1 then radio_set_ptt True st
                          else st)
               in send_frame 8 (st1\<lparr>frame := fr[6 := CODE_OK]\<rparr>)))
         else Inr st)
      else if cmd = C_SET_VFO then
        (case set_vfo (fr ! 5) st of
           (True, st1) \<Rightarrow> send_code CODE_OK (event_send st1)
         | (False, st1) \<Rightarrow> send_code CODE_NG st1)
      else if cmd = C_SEND_SEL_FREQ then
        (if fr ! 6 = FRAME_END then
           (let f = (if fr ! 5 = 0x00 then freq (vfo_x st X6100_VFO_A)
                     else freq (vfo_x st X6100_VFO_B))
            in send_frame 12 (st\<lparr>frame := store_at 6 (to_bcd (unat f) 10) fr\<rparr>))
         else
           (let f = of_nat (from_bcd (drop 6 fr) 10) in
            if fr ! 5 = 0x00 then
              (let st1 = st\<lparr>vfo_x := (vfo_x st)
                            (X6100_VFO_A := (vfo_x st X6100_VFO_A)\<lparr>freq := f\<rparr>)\<rparr>
               in send_code CODE_OK
                    (if vfo st1 = X6100_VFO_A then set_freq f st1 else st1))
            else
              (let st1 = st\<lparr>vfo_x := (vfo_x st)
                            (X6100_VFO_B := (vfo_x st X6100_VFO_B)\<lparr>freq := f\<rparr>)\<rparr>
               in send_code CODE_OK
                    (if vfo st1 = X6100_VFO_B then set_freq f st1 else st1))))
      else if cmd = C_SEND_SEL_MODE then
        (if fr ! 6 = FRAME_END then
           (let fr1 = fr[6 := 0]; fr2 = fr1[7 := 0]
            in send_frame 10 (st\<lparr>frame := fr2[8 := CODE_OK]\<rparr>))
         else
           (let v = (if fr ! 5 \<noteq> 0
                     then (if vfo st = X6100_VFO_A then X6100_VFO_B else X6100_VFO_A)
                     else vfo st)
            in case ci_mode_2_x_mode (fr ! 6) (Some (fr ! 7)) of
                 None \<Rightarrow> Inl (Uninitialised_mode, st)
               | Some m \<Rightarrow> send_code CODE_OK (event_send (radio_set_mode v m st))))
      else send_code CODE_NG st)"

text \<open>
  \<^verbatim>\<open>frame_parse\<close>, lines 253-392: the preamble guard, the echo of the input frame,
  the address rewriter, then the switch.
\<close>

definition frame_parse :: "16 word \<Rightarrow> cat_state \<Rightarrow> outcome" where
  "frame_parse len st =
     (if frame st ! 0 \<noteq> FRAME_PRE \<and> frame st ! 1 \<noteq> FRAME_PRE then Inr st
      else
        (case send_frame len st of
           Inl e \<Rightarrow> Inl e
         | Inr st1 \<Rightarrow> frame_parse_switch (prepare_answer st1)))"

subsection \<open>The protocol loop\<close>

text \<open>
  The body of the \<^verbatim>\<open>while (true)\<close> of \<^verbatim>\<open>cat_thread\<close>, lines 394-402. \<open>None\<close>: the
  task is blocked in \<^verbatim>\<open>frame_get\<close> for ever. The guard compares the unsigned
  \<open>len\<close> with 0 as the source does.
\<close>

definition cat_thread_body :: "cat_state \<Rightarrow> outcome option" where
  "cat_thread_body st =
     (case frame_get st of
        None \<Rightarrow> None
      | Some (len, st1) \<Rightarrow> Some (if 0 \<le> len then frame_parse len st1 else Inr st1))"

text \<open>
  \<^verbatim>\<open>cat_thread\<close> has no exit; \<open>cat_thread n\<close> is the state after \<open>n\<close> rounds of the
  loop, \<open>None\<close> when the task blocks before, a fault when a round reaches one.
\<close>

primrec cat_thread :: "nat \<Rightarrow> cat_state \<Rightarrow> outcome option" where
  "cat_thread 0 st = Some (Inr st)"
| "cat_thread (Suc n) st =
     (case cat_thread_body st of
        None \<Rightarrow> None
      | Some (Inl e) \<Rightarrow> Some (Inl e)
      | Some (Inr st1) \<Rightarrow> cat_thread n st1)"

subsection \<open>A concrete radio\<close>

text \<open>
  A state to run the functions on: an empty serial line, VFO A active, both VFOs on
  14.074 MHz in USB, receiving, and a band table that knows no band.
\<close>

definition example_state :: cat_state where
  "example_state =
     \<lparr>frame = replicate 256 0, rx = [], tx = [], vfo = X6100_VFO_A,
      vfo_x = (\<lambda>v. \<lparr>freq = 14074000, mode = x6100_mode_usb\<rparr>),
      freq_band = 0, bands = (\<lambda>f. None), state = RADIO_RX, calls = []\<rparr>"

section \<open>Properties\<close>

subsection \<open>Lists and buffers\<close>

lemma take_6:
  "6 \<le> length xs \<Longrightarrow> take 6 xs = [xs ! 0, xs ! 1, xs ! 2, xs ! 3, xs ! 4, xs ! 5]"
  by (auto simp add: numeral_eq_Suc Suc_le_length_iff)

subsection \<open>Senders and the address rewriter\<close>

lemma send_frame_terminated:
  assumes "len \<noteq> 0" and "unat len \<le> 256" and "frame st ! (unat len - 1) = FRAME_END"
  shows "send_frame len st = Inr (st\<lparr>tx := tx st @ [take (unat len) (frame st)]\<rparr>)"
proof -
  have "(frame st)[unat len - 1 := FRAME_END] = frame st"
    using assms(3) list_update_id [of "frame st" "unat len - 1"] by simp
  then show ?thesis
    using assms(1,2) by (simp add: send_frame_def)
qed

lemma frame_prepare_answer:
  "frame (prepare_answer s) = (frame s)[2 := frame s ! 3, 3 := 0xA4]"
  by (simp add: prepare_answer_def Let_def)

lemma prepare_answer_eq:
  "prepare_answer s = s\<lparr>frame := (frame s)[2 := frame s ! 3, 3 := 0xA4]\<rparr>"
  by (simp add: prepare_answer_def Let_def)

lemma send_code_reply:
  assumes "length (frame s) = 256"
  shows "send_code code s =
     Inr (s\<lparr>frame := (frame s)[4 := code, 5 := FRAME_END],
            tx := tx s @ [[frame s ! 0, frame s ! 1, frame s ! 2, frame s ! 3, code, FRAME_END]]\<rparr>)"
  using assms by (simp add: send_code_def send_frame_def take_6 Let_def)

subsection \<open>The dispatcher on a terminated frame\<close>

text \<open>
  When one of the first two bytes is the preamble and the byte at \<open>len - 1\<close> is the
  terminator, the guard lets the frame through, the echo is the first \<open>len\<close> bytes of
  the buffer as they are, and the switch runs on the rewritten buffer.
\<close>

lemma frame_parse_echo:
  assumes "frame st ! 0 = FRAME_PRE \<or> frame st ! 1 = FRAME_PRE"
    and "len \<noteq> 0" and "unat len \<le> 256" and "frame st ! (unat len - 1) = FRAME_END"
  shows "frame_parse len st =
           frame_parse_switch (prepare_answer (st\<lparr>tx := tx st @ [take (unat len) (frame st)]\<rparr>))"
proof -
  have "\<not> (frame st ! 0 \<noteq> FRAME_PRE \<and> frame st ! 1 \<noteq> FRAME_PRE)"
    using assms(1) by blast
  then show ?thesis
    unfolding frame_parse_def
    by (simp only: if_False send_frame_terminated [OF assms(2,3,4)] sum.case)
qed

lemma switch_set_vfo:
  assumes "frame s ! 4 = C_SET_VFO"
  shows "frame_parse_switch s =
           (case set_vfo (frame s ! 5) s of
              (True, st1) \<Rightarrow> send_code CODE_OK (event_send st1)
            | (False, st1) \<Rightarrow> send_code CODE_NG st1)"
  using assms by (simp add: frame_parse_switch_def)

lemma switch_ctl_ptt_other:
  assumes "frame s ! 4 = C_CTL_PTT" and "frame s ! 5 \<noteq> 0x00"
  shows "frame_parse_switch s = Inr s"
  using assms by (simp add: frame_parse_switch_def)

subsection \<open>Preamble guard\<close>

text \<open>
  C1. A frame whose bytes 0 and 1 are not both 0xFE should get no byte back and change
  nothing. The guard of \<^verbatim>\<open>frame_parse\<close> rejects a frame only when both bytes
  differ from 0xFE: the select-VFO-B frame below, whose byte 1 is 0x00, is echoed,
  answered with the success code, and switches the active VFO from A to B.
\<close>

theorem one_preamble_byte_is_answered:
  "tx (state_of (frame_parse 7
      (example_state\<lparr>frame := [0xFE, 0x00, 0x00, 0xA4, 0x07, 0x01, 0xFD] @ replicate 249 0\<rparr>)))
     = [[0xFE, 0x00, 0x00, 0xA4, 0x07, 0x01, 0xFD], [0xFE, 0x00, 0xA4, 0xA4, 0xFB, 0xFD]]
   \<and> vfo (state_of (frame_parse 7
      (example_state\<lparr>frame := [0xFE, 0x00, 0x00, 0xA4, 0x07, 0x01, 0xFD] @ replicate 249 0\<rparr>)))
     = X6100_VFO_B
   \<and> vfo example_state = X6100_VFO_A"
  by (simp add: frame_parse_def send_frame_def prepare_answer_def frame_parse_switch_def
      send_code_def set_vfo_def radio_set_vfo_def event_send_def example_state_def Let_def)

subsection \<open>Select VFO\<close>

text \<open>
  C5. For every well-formed select-VFO frame (opcode 0x07) whose selector byte is
  neither 0x00 (VFO A) nor 0x01 (VFO B), the dispatcher writes the echo and then the
  six-byte reply carrying the failure code 0xFA, and nothing else changes: the active
  VFO is the same and the trace of bridge calls has no new entry, so no
  set-active-VFO call was made. Only the buffer and the sent bytes differ.
\<close>

theorem set_vfo_invalid_selector:
  assumes "length (frame st) = 256"
    and "frame st ! 0 = FRAME_PRE" and "frame st ! 1 = FRAME_PRE"
    and "len \<noteq> 0" and "unat len \<le> 256" and "frame st ! (unat len - 1) = FRAME_END"
    and "frame st ! 4 = C_SET_VFO"
    and "frame st ! 5 \<noteq> S_VFOA" and "frame st ! 5 \<noteq> S_VFOB"
  shows "\<exists>st'. frame_parse len st = Inr st'
           \<and> tx st' = tx st @ [take (unat len) (frame st),
                                [FRAME_PRE, FRAME_PRE, frame st ! 3, 0xA4, CODE_NG, FRAME_END]]
           \<and> st'\<lparr>frame := frame st, tx := tx st\<rparr> = st"
proof -
  define s1 where "s1 = prepare_answer (st\<lparr>tx := tx st @ [take (unat len) (frame st)]\<rparr>)"
  have fr1: "frame s1 = (frame st)[2 := frame st ! 3, 3 := 0xA4]"
    by (simp add: s1_def frame_prepare_answer)
  have len1: "length (frame s1) = 256"
    using assms(1) by (simp add: fr1)
  have parse: "frame_parse len st = frame_parse_switch s1"
    unfolding s1_def using assms(2,4,5,6) by (intro frame_parse_echo) simp_all
  have "frame s1 ! 4 = C_SET_VFO" "frame s1 ! 5 = frame st ! 5"
    using assms(7) by (simp_all add: fr1)
  then have "frame_parse_switch s1 = send_code CODE_NG s1"
    using assms(8,9) by (simp add: switch_set_vfo set_vfo_def)
  also have "\<dots> = Inr (s1\<lparr>frame := (frame s1)[4 := CODE_NG, 5 := FRAME_END],
            tx := tx s1 @ [[frame s1 ! 0, frame s1 ! 1, frame s1 ! 2, frame s1 ! 3,
                            CODE_NG, FRAME_END]]\<rparr>)"
    by (rule send_code_reply [OF len1])
  finally have res: "frame_parse len st =
        Inr (s1\<lparr>frame := (frame s1)[4 := CODE_NG, 5 := FRAME_END],
            tx := tx s1 @ [[frame s1 ! 0, frame s1 ! 1, frame s1 ! 2, frame s1 ! 3,
                            CODE_NG, FRAME_END]]\<rparr>)"
    using parse by simp
  have bytes: "frame s1 ! 0 = FRAME_PRE" "frame s1 ! 1 = FRAME_PRE"
      "frame s1 ! 2 = frame st ! 3" "frame s1 ! 3 = 0xA4"
    using assms(1,2,3) by (simp_all add: fr1)
  show ?thesis
    unfolding res using bytes by (simp add: s1_def prepare_answer_eq)
qed

theorem set_vfo_invalid_selector_witness:
  "\<exists>st'. frame_parse 7
       (example_state\<lparr>frame := [0xFE, 0xFE, 0x00, 0xA4, 0x07, 0x02, 0xFD] @ replicate 249 0\<rparr>)
         = Inr st'
      \<and> tx st' = [[0xFE, 0xFE, 0x00, 0xA4, 0x07, 0x02, 0xFD],
                   [0xFE, 0xFE, 0xA4, 0xA4, 0xFA, 0xFD]]
      \<and> vfo st' = X6100_VFO_A \<and> calls st' = []"
proof -
  let ?st = "example_state\<lparr>frame := [0xFE, 0xFE, 0x00, 0xA4, 0x07, 0x02, 0xFD] @ replicate 249 0\<rparr>"
  obtain st' where r: "frame_parse 7 ?st = Inr st'"
      "tx st' = tx ?st @ [take (unat (7 :: 16 word)) (frame ?st),
                          [FRAME_PRE, FRAME_PRE, frame ?st ! 3, 0xA4, CODE_NG, FRAME_END]]"
      "st'\<lparr>frame := frame ?st, tx := tx ?st\<rparr> = ?st"
    using set_vfo_invalid_selector [of ?st 7] by (auto simp add: example_state_def)
  have "vfo (st'\<lparr>frame := frame ?st, tx := tx ?st\<rparr>) = X6100_VFO_A"
       "calls (st'\<lparr>frame := frame ?st, tx := tx ?st\<rparr>) = []"
    unfolding r(3) by (simp_all add: example_state_def)
  then have "vfo st' = X6100_VFO_A" "calls st' = []"
    by simp_all
  moreover have "tx st' = [[0xFE, 0xFE, 0x00, 0xA4, 0x07, 0x02, 0xFD],
                   [0xFE, 0xFE, 0xA4, 0xA4, 0xFA, 0xFD]]"
    using r(2) by (simp add: example_state_def)
  ultimately show ?thesis
    using r(1) by blast
qed

subsection \<open>Transmit control\<close>

text \<open>
  C10. For every well-formed transmit-control frame (opcode 0x1C) whose first payload
  byte is not the sub-selector 0x00, the dispatcher writes the echo and nothing more:
  no reply frame follows, and apart from the buffer and the sent bytes the state is
  the one before, so neither the transmit/receive state nor any other radio parameter
  changed and no bridge call was made.
\<close>

theorem ptt_other_subcommand_echo_only:
  assumes "length (frame st) = 256"
    and "frame st ! 0 = FRAME_PRE" and "frame st ! 1 = FRAME_PRE"
    and "len \<noteq> 0" and "unat len \<le> 256" and "frame st ! (unat len - 1) = FRAME_END"
    and "frame st ! 4 = C_CTL_PTT" and "frame st ! 5 \<noteq> 0x00"
  shows "\<exists>st'. frame_parse len st = Inr st'
           \<and> tx st' = tx st @ [take (unat len) (frame st)]
           \<and> st'\<lparr>frame := frame st, tx := tx st\<rparr> = st"
proof -
  define s1 where "s1 = prepare_answer (st\<lparr>tx := tx st @ [take (unat len) (frame st)]\<rparr>)"
  have fr1: "frame s1 = (frame st)[2 := frame st ! 3, 3 := 0xA4]"
    by (simp add: s1_def frame_prepare_answer)
  have parse: "frame_parse len st = frame_parse_switch s1"
    unfolding s1_def using assms(2,4,5,6) by (intro frame_parse_echo) simp_all
  have "frame s1 ! 4 = C_CTL_PTT" "frame s1 ! 5 \<noteq> 0x00"
    using assms(7,8) by (simp_all add: fr1)
  then have "frame_parse_switch s1 = Inr s1"
    by (rule switch_ctl_ptt_other)
  then have "frame_parse len st = Inr s1"
    using parse by simp
  then show ?thesis
    by (simp add: s1_def prepare_answer_eq)
qed

theorem ptt_other_subcommand_echo_only_witness:
  "\<exists>st'. frame_parse 8
       (example_state\<lparr>frame := [0xFE, 0xFE, 0x00, 0xA4, 0x1C, 0x01, 0x01, 0xFD] @ replicate 248 0\<rparr>)
         = Inr st'
      \<and> tx st' = [[0xFE, 0xFE, 0x00, 0xA4, 0x1C, 0x01, 0x01, 0xFD]]
      \<and> state st' = RADIO_RX \<and> calls st' = []"
proof -
  let ?st = "example_state\<lparr>frame := [0xFE, 0xFE, 0x00, 0xA4, 0x1C, 0x01, 0x01, 0xFD] @ replicate 248 0\<rparr>"
  obtain st' where r: "frame_parse 8 ?st = Inr st'"
      "tx st' = tx ?st @ [take (unat (8 :: 16 word)) (frame ?st)]"
      "st'\<lparr>frame := frame ?st, tx := tx ?st\<rparr> = ?st"
    using ptt_other_subcommand_echo_only [of ?st 8] by (auto simp add: example_state_def)
  have "state (st'\<lparr>frame := frame ?st, tx := tx ?st\<rparr>) = RADIO_RX"
       "calls (st'\<lparr>frame := frame ?st, tx := tx ?st\<rparr>) = []"
    unfolding r(3) by (simp_all add: example_state_def)
  then have "state st' = RADIO_RX" "calls st' = []"
    by simp_all
  moreover have "tx st' = [[0xFE, 0xFE, 0x00, 0xA4, 0x1C, 0x01, 0x01, 0xFD]]"
    using r(2) by (simp add: example_state_def)
  ultimately show ?thesis
    using r(1) by blast
qed

subsection \<open>Mode translators\<close>

text \<open>
  C9. For every wire mode code among LSB, USB, AM, CW, NFM and CW-reverse and every
  value of the data flag (no flag at all, a zero byte, a non-zero byte), translating
  the code to a domain mode gives a mode, and translating that mode back gives the
  code again: the digital variants of LSB and USB collapse to the plain wire codes.
\<close>

theorem mode_roundtrip:
  assumes "m \<in> {M_LSB, M_USB, M_AM, M_CW, M_NFM, M_CWR}"
  shows "map_option x_mode_2_ci_mode (ci_mode_2_x_mode m flag) = Some m"
  using assms by (auto simp add: ci_mode_2_x_mode_def split: option.splits)

theorem mode_roundtrip_witness:
  "M_USB \<in> {M_LSB, M_USB, M_AM, M_CW, M_NFM, M_CWR}
   \<and> ci_mode_2_x_mode M_USB (Some 1) = Some x6100_mode_usb_dig
   \<and> map_option x_mode_2_ci_mode (ci_mode_2_x_mode M_USB (Some 1)) = Some M_USB"
  using mode_roundtrip [of M_USB "Some 1"] by (simp add: ci_mode_2_x_mode_def)

subsection \<open>The framer\<close>

text \<open>
  Three runs of the loop of \<^verbatim>\<open>frame_get\<close> from a buffer position \<open>k\<close>: the line
  runs dry before a terminator and before the buffer is full; the buffer fills up
  without a terminator; a terminator arrives in time.
\<close>

declare frame_get_loop.simps(2) [simp del]

lemma unat_len16: "k \<le> 256 \<Longrightarrow> unat (of_nat k :: 16 word) = k"
  by (simp add: unat_of_nat)

lemma len16_step:
  assumes "k < 256"
  shows "frame_get_loop (of_nat k) fr (c # cs) =
     (if c = FRAME_END then Some (of_nat (Suc k), fr[k := c], cs)
      else if Suc k = 256 then Some (0, fr[k := c], cs)
      else frame_get_loop (of_nat (Suc k)) (fr[k := c]) cs)"
proof -
  have a: "unat (of_nat k :: 16 word) = k" using assms by (simp add: unat_len16)
  have b: "(of_nat k :: 16 word) + 1 = of_nat (Suc k)" by simp
  have c: "unat (of_nat (Suc k) :: 16 word) = Suc k" using assms by (simp only: unat_len16)
  have d: "(256 \<le> Suc k) = (Suc k = 256)" using assms by auto
  show ?thesis
    by (simp only: frame_get_loop.simps(2) Let_def a b c d)
qed

lemma frame_get_loop_starved:
  "k + length input < 256 \<Longrightarrow> FRAME_END \<notin> set input \<Longrightarrow>
   frame_get_loop (of_nat k) fr input = None"
proof (induction input arbitrary: k fr)
  case Nil
  show ?case by simp
next
  case (Cons c cs)
  have k: "k < 256" using Cons.prems(1) by simp
  have "frame_get_loop (of_nat (Suc k)) (fr[k := c]) cs = None"
    using Cons.prems by (intro Cons.IH) simp_all
  then show ?case
    using Cons.prems by (simp add: len16_step [OF k])
qed

lemma frame_get_loop_overflow:
  "k < 256 \<Longrightarrow> length fr = 256 \<Longrightarrow> 256 \<le> k + length input \<Longrightarrow>
   FRAME_END \<notin> set (take (256 - k) input) \<Longrightarrow>
   frame_get_loop (of_nat k) fr input =
     Some (0, take k fr @ take (256 - k) input, drop (256 - k) input)"
proof (induction input arbitrary: k fr)
  case Nil
  then show ?case by simp
next
  case (Cons c cs)
  have c: "c \<noteq> FRAME_END"
    using Cons.prems(1,4) by (cases "256 - k") auto
  have upd: "take (Suc k) (fr[k := c]) = take k fr @ [c]"
    using Cons.prems(1,2) by (simp add: take_Suc_conv_app_nth)
  show ?case
  proof (cases "Suc k = 256")
    case True
    then have "256 - k = Suc 0" by simp
    moreover have "fr[k := c] = take k fr @ [c]"
      using upd True Cons.prems(2) by simp
    ultimately show ?thesis
      using c True by (simp only: len16_step [OF Cons.prems(1)]) simp
  next
    case False
    then have k': "Suc k < 256" using Cons.prems(1) by simp
    have d: "256 - k = Suc (256 - Suc k)" using k' by simp
    have "frame_get_loop (of_nat (Suc k)) (fr[k := c]) cs =
        Some (0, take (Suc k) (fr[k := c]) @ take (256 - Suc k) cs, drop (256 - Suc k) cs)"
      using Cons.prems k' by (intro Cons.IH) (simp_all add: d)
    then show ?thesis
      using c False by (simp add: len16_step [OF Cons.prems(1)] upd d)
  qed
qed

lemma frame_get_loop_terminated:
  "k + length pre < 256 \<Longrightarrow> length fr = 256 \<Longrightarrow> FRAME_END \<notin> set pre \<Longrightarrow>
   frame_get_loop (of_nat k) fr (pre @ FRAME_END # rest) =
     Some (of_nat (Suc (k + length pre)),
           take k fr @ pre @ FRAME_END # drop (Suc (k + length pre)) fr, rest)"
proof (induction pre arbitrary: k fr)
  case Nil
  then have k: "k < 256" by simp
  have "fr[k := FRAME_END] = take k fr @ FRAME_END # drop (Suc k) fr"
    using k Nil.prems(2) by (simp add: upd_conv_take_nth_drop)
  then show ?case
    by (simp add: len16_step [OF k])
next
  case (Cons c cs)
  have k: "k < 256" and k': "Suc k \<noteq> 256" using Cons.prems(1) by simp_all
  have c: "c \<noteq> FRAME_END" using Cons.prems(3) by auto
  have upd: "take (Suc k) (fr[k := c]) = take k fr @ [c]"
    using k Cons.prems(2) by (simp add: take_Suc_conv_app_nth)
  have "frame_get_loop (of_nat (Suc k)) (fr[k := c]) (cs @ FRAME_END # rest) =
     Some (of_nat (Suc (Suc k + length cs)),
           take (Suc k) (fr[k := c]) @ cs @ FRAME_END # drop (Suc (Suc k + length cs)) (fr[k := c]), rest)"
    using Cons.prems by (intro Cons.IH) simp_all
  then show ?case
    using c k' by (simp add: len16_step [OF k] upd)
qed


lemma frame_get_overflow:
  assumes "256 \<le> length (rx st)" and "FRAME_END \<notin> set (take 256 (rx st))"
  shows "frame_get st = Some (0, st\<lparr>frame := take 256 (rx st), rx := drop 256 (rx st)\<rparr>)"
  using frame_get_loop_overflow [of 0 "replicate 256 0" "rx st"] assms
  by (simp add: frame_get_def)

lemma frame_get_starved:
  assumes "length (rx st) < 256" and "FRAME_END \<notin> set (rx st)"
  shows "frame_get st = None"
  using frame_get_loop_starved [of 0 "rx st" "replicate 256 0"] assms
  by (simp add: frame_get_def)

lemma frame_get_terminated:
  assumes "rx st = pre @ FRAME_END # rest" and "length pre < 256" and "FRAME_END \<notin> set pre"
  shows "frame_get st =
     Some (of_nat (Suc (length pre)),
           st\<lparr>frame := pre @ FRAME_END # replicate (255 - length pre) 0, rx := rest\<rparr>)"
  using frame_get_loop_terminated [of 0 pre "replicate 256 0" rest] assms
  by (simp add: frame_get_def)

lemma frame_get_nonempty:
  assumes "frame_get st = Some (len, st1)" and "len \<noteq> 0"
  obtains pre rest where "rx st = pre @ FRAME_END # rest" and "length pre < 256"
    and "FRAME_END \<notin> set pre" and "len = of_nat (Suc (length pre))"
    and "st1 = st\<lparr>frame := pre @ FRAME_END # replicate (255 - length pre) 0, rx := rest\<rparr>"
proof (cases "FRAME_END \<in> set (take 256 (rx st))")
  case True
  then obtain pre r where sp: "take 256 (rx st) = pre @ FRAME_END # r" "FRAME_END \<notin> set pre"
    by (meson split_list_first)
  have "length (take 256 (rx st)) \<le> 256" by simp
  then have lp: "length pre < 256" unfolding sp(1) by simp
  have "rx st = take 256 (rx st) @ drop 256 (rx st)" by simp
  then have rx: "rx st = pre @ FRAME_END # (r @ drop 256 (rx st))"
    unfolding sp(1) by simp
  have "frame_get st = Some (of_nat (Suc (length pre)),
           st\<lparr>frame := pre @ FRAME_END # replicate (255 - length pre) 0,
              rx := r @ drop 256 (rx st)\<rparr>)"
    by (rule frame_get_terminated [OF rx lp sp(2)])
  with assms(1) have "len = of_nat (Suc (length pre))"
      "st1 = st\<lparr>frame := pre @ FRAME_END # replicate (255 - length pre) 0,
              rx := r @ drop 256 (rx st)\<rparr>"
    by simp_all
  then show ?thesis
    using that rx lp sp(2) by blast
next
  case False
  show ?thesis
  proof (cases "256 \<le> length (rx st)")
    case True
    then have "frame_get st = Some (0, st\<lparr>frame := take 256 (rx st), rx := drop 256 (rx st)\<rparr>)"
      using False by (rule frame_get_overflow)
    with assms show ?thesis by simp
  next
    case short: False
    then have "frame_get st = None"
      using False by (intro frame_get_starved) simp_all
    with assms show ?thesis by simp
  qed
qed

subsection \<open>What the dispatcher sends\<close>

text \<open>The bridge calls and the address rewriter send nothing.\<close>

lemma tx_event_send: "tx (event_send s) = tx s"
  by (simp add: event_send_def)

lemma tx_radio_set_mode: "tx (radio_set_mode v m s) = tx s"
  by (simp add: radio_set_mode_def)

lemma tx_radio_set_ptt: "tx (radio_set_ptt b s) = tx s"
  by (simp add: radio_set_ptt_def)

lemma tx_radio_set_vfo: "tx (radio_set_vfo v s) = tx s"
  by (simp add: radio_set_vfo_def)

lemma tx_set_freq: "tx (set_freq f s) = tx s"
  by (simp add: set_freq_def params_bands_find_def bands_activate_def radio_set_freq_def
      event_send_def Let_def split: option.split)

lemma tx_prepare_answer: "tx (prepare_answer s) = tx s"
  by (simp add: prepare_answer_def Let_def)

lemmas tx_simps = tx_event_send tx_radio_set_mode tx_radio_set_ptt tx_radio_set_vfo
  tx_set_freq tx_prepare_answer

lemma send_frame_tx:
  assumes "tx s' = tx s"
  shows "\<exists>ws. tx (state_of (send_frame n s')) = tx s @ ws"
  using assms by (simp add: send_frame_def Let_def)

lemma send_code_tx:
  assumes "tx s' = tx s"
  shows "\<exists>ws. tx (state_of (send_code c s')) = tx s @ ws"
  unfolding send_code_def using assms by (intro send_frame_tx) simp

lemma switch_tx:
  "\<exists>ws. tx (state_of (frame_parse_switch s)) = tx s @ ws"
  unfolding frame_parse_switch_def Let_def
  by (simp add: send_frame_tx send_code_tx tx_simps set_vfo_def split: option.split)



subsection \<open>Echo\<close>

text \<open>
  C2. For every complete, correctly terminated inbound frame with valid preamble, the
  dispatcher first retransmits exactly the received bytes. A frame is complete and
  terminated when \<^verbatim>\<open>frame_get\<close> returns it with a length other than 0; the
  received bytes are then the first \<open>len\<close> bytes of the line. Whatever the opcode and
  whether or not the dispatcher reaches a fault later, the first thing it writes is
  these bytes, and every reply comes after them.
\<close>

theorem echo_before_reply:
  assumes "frame_get st = Some (len, st1)" and "len \<noteq> 0"
    and "frame st1 ! 0 = FRAME_PRE" and "frame st1 ! 1 = FRAME_PRE"
  shows "\<exists>replies. tx (state_of (frame_parse len st1))
                      = tx st @ take (unat len) (rx st) # replies"
proof -
  obtain pre rest where rx: "rx st = pre @ FRAME_END # rest" and lp: "length pre < 256"
    and len: "len = of_nat (Suc (length pre))"
    and st1: "st1 = st\<lparr>frame := pre @ FRAME_END # replicate (255 - length pre) 0, rx := rest\<rparr>"
    using assms(1,2) by (rule frame_get_nonempty)
  have ulen: "unat len = Suc (length pre)"
    unfolding len using lp by (intro unat_len16) simp
  have echo: "take (unat len) (frame st1) = take (unat len) (rx st)"
    by (simp add: ulen st1 rx)
  have fin: "frame st1 ! (unat len - 1) = FRAME_END"
    by (simp add: ulen st1)
  have "unat len \<le> 256" using lp by (simp add: ulen)
  then have parse: "frame_parse len st1 =
      frame_parse_switch (prepare_answer (st1\<lparr>tx := tx st1 @ [take (unat len) (frame st1)]\<rparr>))"
    using assms(2,3) fin by (intro frame_parse_echo) simp_all
  obtain ws where "tx (state_of (frame_parse len st1))
      = tx (prepare_answer (st1\<lparr>tx := tx st1 @ [take (unat len) (frame st1)]\<rparr>)) @ ws"
    unfolding parse using switch_tx by blast
  then have "tx (state_of (frame_parse len st1)) = tx st @ take (unat len) (rx st) # ws"
    by (simp add: tx_prepare_answer echo) (simp add: st1)
  then show ?thesis ..
qed

theorem echo_before_reply_witness:
  "frame_get (example_state\<lparr>rx := [0xFE, 0xFE, 0x00, 0xA4, 0x19, 0xFD, 0x55]\<rparr>)
     = Some (6, example_state\<lparr>frame := [0xFE, 0xFE, 0x00, 0xA4, 0x19, 0xFD] @ replicate 250 0,
                               rx := [0x55]\<rparr>)
   \<and> (\<exists>replies. tx (state_of (frame_parse 6
        (example_state\<lparr>frame := [0xFE, 0xFE, 0x00, 0xA4, 0x19, 0xFD] @ replicate 250 0, rx := [0x55]\<rparr>)))
      = [0xFE, 0xFE, 0x00, 0xA4, 0x19, 0xFD] # replies)"
proof -
  let ?st = "example_state\<lparr>rx := [0xFE, 0xFE, 0x00, 0xA4, 0x19, 0xFD, 0x55]\<rparr>"
  let ?st1 = "example_state\<lparr>frame := [0xFE, 0xFE, 0x00, 0xA4, 0x19, 0xFD] @ replicate 250 0, rx := [0x55]\<rparr>"
  have "frame_get ?st = Some (of_nat (Suc (length [0xFE, 0xFE, 0x00, 0xA4, 0x19 :: byte])),
      ?st\<lparr>frame := [0xFE, 0xFE, 0x00, 0xA4, 0x19] @ FRAME_END # replicate (255 - length [0xFE, 0xFE, 0x00, 0xA4, 0x19 :: byte]) 0, rx := [0x55]\<rparr>)"
    by (rule frame_get_terminated) (simp_all add: example_state_def)
  then have g: "frame_get ?st = Some (6, ?st1)"
    by (simp add: example_state_def)
  have "\<exists>replies. tx (state_of (frame_parse 6 ?st1)) = tx ?st @ take (unat (6 :: 16 word)) (rx ?st) # replies"
    using echo_before_reply [OF g] by (simp add: example_state_def)
  then have "\<exists>replies. tx (state_of (frame_parse 6 ?st1)) = [0xFE, 0xFE, 0x00, 0xA4, 0x19, 0xFD] # replies"
    by (simp add: example_state_def)
  then show ?thesis
    using g by simp
qed


subsection \<open>Buffer overflow and the loop's guard\<close>

text \<open>
  The guard \<^verbatim>\<open>len >= 0\<close> of \<^verbatim>\<open>cat_thread\<close> holds for every unsigned \<open>len\<close>: each
  round runs the dispatcher on whatever \<^verbatim>\<open>frame_get\<close> returned.
\<close>

lemma cat_thread_body_always:
  "cat_thread_body st =
     (case frame_get st of None \<Rightarrow> None | Some (len, st1) \<Rightarrow> Some (frame_parse len st1))"
  by (simp add: cat_thread_body_def split: option.split)


text \<open>
  C7. When no terminator comes among the first 256 bytes, the read should be abandoned
  with length 0, no reply sent, and the loop should go on to the next read. On the
  256 bytes below (a read-frequency request whose terminator never comes)
  \<^verbatim>\<open>frame_get\<close> does return 0 with the line consumed, but the round of the loop
  then runs the dispatcher on it: the preamble guard passes and \<^verbatim>\<open>send_frame(0)\<close>
  stores the terminator at \<^verbatim>\<open>frame[-1]\<close>.
\<close>

theorem overflow_is_dispatched:
  "frame_get (example_state\<lparr>rx := [0xFE, 0xFE, 0x00, 0xA4, 0x03] @ replicate 251 0\<rparr>)
     = Some (0, example_state\<lparr>frame := [0xFE, 0xFE, 0x00, 0xA4, 0x03] @ replicate 251 0\<rparr>)
   \<and> cat_thread_body (example_state\<lparr>rx := [0xFE, 0xFE, 0x00, 0xA4, 0x03] @ replicate 251 0\<rparr>)
     = Some (Inl (Out_of_bounds_store,
          example_state\<lparr>frame := [0xFE, 0xFE, 0x00, 0xA4, 0x03] @ replicate 251 0\<rparr>))"
proof -
  let ?st = "example_state\<lparr>rx := [0xFE, 0xFE, 0x00, 0xA4, 0x03] @ replicate 251 0\<rparr>"
  let ?st1 = "example_state\<lparr>frame := [0xFE, 0xFE, 0x00, 0xA4, 0x03] @ replicate 251 0\<rparr>"
  have "frame_get ?st = Some (0, ?st\<lparr>frame := take 256 (rx ?st), rx := drop 256 (rx ?st)\<rparr>)"
    by (rule frame_get_overflow) simp_all
  then have g: "frame_get ?st = Some (0, ?st1)"
    by (simp add: example_state_def)
  have "frame_parse 0 ?st1 = Inl (Out_of_bounds_store, ?st1)"
    by (simp add: frame_parse_def send_frame_def)
  then show ?thesis
    using g by (simp add: cat_thread_body_always)
qed


text \<open>
  C8. The dispatcher should run only when \<^verbatim>\<open>frame_get\<close> returned a non-empty frame.
  One round of \<^verbatim>\<open>cat_thread\<close> on a select-VFO frame whose terminator never comes:
  \<^verbatim>\<open>frame_get\<close> returns the empty result, and the round ends in the dispatcher's
  out-of-bounds store instead of going back to read.
\<close>

theorem empty_frame_reaches_dispatcher:
  "frame_get (example_state\<lparr>rx := [0xFE, 0xFE, 0x00, 0xA4, 0x07, 0x01] @ replicate 250 0\<rparr>)
     = Some (0, example_state\<lparr>frame := [0xFE, 0xFE, 0x00, 0xA4, 0x07, 0x01] @ replicate 250 0\<rparr>)
   \<and> cat_thread 1 (example_state\<lparr>rx := [0xFE, 0xFE, 0x00, 0xA4, 0x07, 0x01] @ replicate 250 0\<rparr>)
     = Some (Inl (Out_of_bounds_store,
          example_state\<lparr>frame := [0xFE, 0xFE, 0x00, 0xA4, 0x07, 0x01] @ replicate 250 0\<rparr>))"
proof -
  let ?st = "example_state\<lparr>rx := [0xFE, 0xFE, 0x00, 0xA4, 0x07, 0x01] @ replicate 250 0\<rparr>"
  let ?st1 = "example_state\<lparr>frame := [0xFE, 0xFE, 0x00, 0xA4, 0x07, 0x01] @ replicate 250 0\<rparr>"
  have "frame_get ?st = Some (0, ?st\<lparr>frame := take 256 (rx ?st), rx := drop 256 (rx ?st)\<rparr>)"
    by (rule frame_get_overflow) simp_all
  then have g: "frame_get ?st = Some (0, ?st1)"
    by (simp add: example_state_def)
  have "frame_parse 0 ?st1 = Inl (Out_of_bounds_store, ?st1)"
    by (simp add: frame_parse_def send_frame_def)
  then have "cat_thread_body ?st = Some (Inl (Out_of_bounds_store, ?st1))"
    using g by (simp add: cat_thread_body_always)
  then show ?thesis
    using g by simp
qed

subsection \<open>BCD codec\<close>

lemma to_bcd_bytes_numeral:
  "to_bcd_bytes (numeral k) v =
     of_nat (v mod 10 + 16 * (v div 10 mod 10)) # to_bcd_bytes (pred_numeral k) (v div 100)"
  using to_bcd_bytes.simps(2) [of "pred_numeral k" v]
  by (simp only: numeral_eq_Suc [of k, symmetric])

lemma length_to_bcd_bytes: "length (to_bcd_bytes n v) = n"
  by (induction n arbitrary: v) simp_all

lemma unat_bcd_byte:
  assumes "a < 10" "b < 10"
  shows "unat (of_nat (a + 16 * b) :: byte) = a + 16 * b"
proof -
  have "a + 16 * b < 256" using assms by simp
  then have "(a + 16 * b) mod 2 ^ LENGTH(8) = a + 16 * b" by simp
  then show ?thesis by (simp only: unat_of_nat)
qed

lemma from_to_bcd_bytes: "from_bcd_bytes (to_bcd_bytes n v) = v mod 10 ^ (2 * n)"
proof (induction n arbitrary: v)
  case 0
  show ?case by simp
next
  case (Suc n)
  define B :: byte where "B = of_nat (v mod 10 + 16 * (v div 10 mod 10))"
  have b: "unat B = v mod 10 + 16 * (v div 10 mod 10)"
    unfolding B_def by (rule unat_bcd_byte) simp_all
  have "to_bcd_bytes (Suc n) v = B # to_bcd_bytes n (v div 100)"
    by (simp only: to_bcd_bytes.simps B_def)
  then have "from_bcd_bytes (to_bcd_bytes (Suc n) v)
      = v mod 10 + 10 * (v div 10 mod 10) + 100 * ((v div 100) mod 10 ^ (2 * n))"
    by (simp add: b Suc.IH)
  also have "v mod 10 + 10 * (v div 10 mod 10) = v mod 100"
  proof -
    have "v mod (10 * 10) = 10 * (v div 10 mod 10) + v mod 10"
      by (rule mod_mult2_eq)
    then show ?thesis by simp
  qed
  also have "v mod 100 + 100 * ((v div 100) mod 10 ^ (2 * n)) = v mod (100 * 10 ^ (2 * n))"
    by (simp add: mod_mult2_eq)
  finally show ?case by simp
qed

lemma length_to_bcd: "length (to_bcd v d) = d div 2"
  by (simp add: to_bcd_def length_to_bcd_bytes)

lemma from_to_bcd: "even d \<Longrightarrow> from_bcd (to_bcd v d @ rest) d = v mod 10 ^ d"
  by (auto simp add: to_bcd_def from_bcd_def length_to_bcd_bytes from_to_bcd_bytes)

text \<open>
  C3. For every value \<open>v\<close> and even digit count \<open>d\<close>, the encoding has \<open>d div 2\<close>
  bytes and decodes to the low \<open>d\<close> decimal digits of \<open>v\<close>; so when \<open>v\<close> is
  representable in \<open>d\<close> digits, decoding the encoding gives \<open>v\<close> again, and a value
  with more digits is truncated to its low \<open>d\<close> digits rather than refused.
\<close>

theorem bcd_roundtrip:
  assumes "even d"
  shows "length (to_bcd v d) = d div 2
       \<and> from_bcd (to_bcd v d) d = v mod 10 ^ d
       \<and> (v < 10 ^ d \<longrightarrow> from_bcd (to_bcd v d) d = v)"
  using from_to_bcd [OF assms, of v "[]"] by (simp add: length_to_bcd)

theorem bcd_roundtrip_witness:
  "even (10 :: nat)
   \<and> to_bcd 14074000 10 = [0x00, 0x40, 0x07, 0x14, 0x00]
   \<and> from_bcd (to_bcd 14074000 10) 10 = 14074000
   \<and> from_bcd (to_bcd 10014074000 10) 10 = 14074000"
  using bcd_roundtrip [of 10 14074000] bcd_roundtrip [of 10 10014074000]
  by (simp add: to_bcd_def to_bcd_bytes_numeral)

subsection \<open>Read frequency\<close>

lemma switch_rd_freq:
  assumes "frame s ! 4 = C_RD_FREQ"
  shows "frame_parse_switch s =
     send_frame 11 (s\<lparr>frame := store_at 5 (to_bcd (unat (freq (vfo_x s (vfo s)))) 10) (frame s)\<rparr>)"
  using assms by (simp add: frame_parse_switch_def)

lemma send_frame_bcd_reply:
  assumes "length fr = 256" and "length bcd = 5" and "off = 5 \<or> off = 6"
  shows "send_frame (of_nat (off + 6)) (s\<lparr>frame := store_at off bcd fr\<rparr>) =
     Inr (s\<lparr>frame := take off fr @ bcd @ FRAME_END # drop (off + 6) fr,
            tx := tx s @ [take off fr @ bcd @ [FRAME_END]]\<rparr>)"
proof -
  have d: "drop (off + 5) fr = fr ! (off + 5) # drop (off + 6) fr"
    using assms(1,3) Cons_nth_drop_Suc [of "off + 5" fr] by auto
  have "(store_at off bcd fr)[off + 5 := FRAME_END] = take off fr @ bcd @ FRAME_END # drop (off + 6) fr"
    using assms by (auto simp add: store_at_def list_update_append d)
  moreover have "unat (of_nat (off + 6) :: 16 word) = off + 6"
    using assms(3) by auto
  moreover have "(of_nat (off + 6) :: 16 word) \<noteq> 0"
    using assms(3) by auto
  ultimately show ?thesis
    using assms by (auto simp add: send_frame_def Let_def)
qed

lemma frame_parse_rd_freq:
  assumes "frame st = [0xFE, 0xFE, 0x00, 0xA4, 0x03, 0xFD] @ rest" and "length rest = 250"
  shows "\<exists>fr'. frame_parse 6 st =
     Inr (st\<lparr>frame := fr',
            tx := tx st @ [[0xFE, 0xFE, 0x00, 0xA4, 0x03, 0xFD],
                           [0xFE, 0xFE, 0xA4, 0xA4, 0x03]
                             @ to_bcd (unat (freq (vfo_x st (vfo st)))) 10 @ [0xFD]]\<rparr>)"
proof -
  define s1 where "s1 = prepare_answer (st\<lparr>tx := tx st @ [take (unat (6 :: 16 word)) (frame st)]\<rparr>)"
  define bcd where "bcd = to_bcd (unat (freq (vfo_x st (vfo st)))) 10"
  have fr1: "frame s1 = [0xFE, 0xFE, 0xA4, 0xA4, 0x03, 0xFD] @ rest"
    by (simp add: s1_def frame_prepare_answer assms(1))
  have len1: "length (frame s1) = 256"
    by (simp add: fr1 assms(2))
  have lb: "length bcd = 5"
    by (simp add: bcd_def length_to_bcd)
  have parse: "frame_parse 6 st = frame_parse_switch s1"
    unfolding s1_def by (intro frame_parse_echo) (simp_all add: assms)
  have "frame_parse_switch s1 = send_frame 11 (s1\<lparr>frame := store_at 5 bcd (frame s1)\<rparr>)"
    by (simp add: switch_rd_freq fr1) (simp add: bcd_def s1_def prepare_answer_eq)
  also have "\<dots> = Inr (s1\<lparr>frame := take 5 (frame s1) @ bcd @ FRAME_END # drop (5 + 6) (frame s1),
            tx := tx s1 @ [take 5 (frame s1) @ bcd @ [FRAME_END]]\<rparr>)"
    using send_frame_bcd_reply [OF len1 lb, of 5 s1] by simp
  finally have res: "frame_parse 6 st =
      Inr (s1\<lparr>frame := take 5 (frame s1) @ bcd @ FRAME_END # drop (5 + 6) (frame s1),
            tx := tx s1 @ [take 5 (frame s1) @ bcd @ [FRAME_END]]\<rparr>)"
    using parse by simp
  have "tx s1 @ [take 5 (frame s1) @ bcd @ [FRAME_END]]
      = tx st @ [[0xFE, 0xFE, 0x00, 0xA4, 0x03, 0xFD], [0xFE, 0xFE, 0xA4, 0xA4, 0x03] @ bcd @ [0xFD]]"
    by (simp add: fr1) (simp add: s1_def prepare_answer_eq assms(1))
  then show ?thesis
    unfolding res by (simp add: s1_def prepare_answer_eq bcd_def) blast
qed

text \<open>
  C4, as amended. For the 6-byte read-frequency request [FE, FE, 00, A4, 03, FD] the
  dispatcher writes the echo and then one reply of 11 bytes: [FE, FE, A4, A4, 03],
  five packed-BCD bytes, and the terminator FD. Byte 3 of the reply is the fixed
  source address A4 (byte 2 is the sender's address, which is A4 in this request).
  The five bytes decode to the active VFO's frequency modulo 10^10, hence to the
  frequency itself whenever it is below 10^10. Nothing but the buffer and the sent
  bytes changes.
\<close>

theorem read_freq_reply:
  assumes "frame st = [0xFE, 0xFE, 0x00, 0xA4, 0x03, 0xFD] @ rest" and "length rest = 250"
  shows "\<exists>st' bcd. frame_parse 6 st = Inr st'
     \<and> tx st' = tx st @ [[0xFE, 0xFE, 0x00, 0xA4, 0x03, 0xFD],
                          [0xFE, 0xFE, 0xA4, 0xA4, 0x03] @ bcd @ [0xFD]]
     \<and> length bcd = 5
     \<and> from_bcd bcd 10 = unat (freq (vfo_x st (vfo st))) mod 10 ^ 10
     \<and> (unat (freq (vfo_x st (vfo st))) < 10 ^ 10
          \<longrightarrow> from_bcd bcd 10 = unat (freq (vfo_x st (vfo st))))
     \<and> st'\<lparr>frame := frame st, tx := tx st\<rparr> = st"
proof -
  define bcd where "bcd = to_bcd (unat (freq (vfo_x st (vfo st)))) 10"
  obtain fr' where res: "frame_parse 6 st =
     Inr (st\<lparr>frame := fr',
            tx := tx st @ [[0xFE, 0xFE, 0x00, 0xA4, 0x03, 0xFD],
                           [0xFE, 0xFE, 0xA4, 0xA4, 0x03] @ bcd @ [0xFD]]\<rparr>)"
    unfolding bcd_def using frame_parse_rd_freq [OF assms] by blast
  have lb: "length bcd = 5"
    by (simp add: bcd_def length_to_bcd)
  have dec: "from_bcd bcd 10 = unat (freq (vfo_x st (vfo st))) mod 10 ^ 10"
    using from_to_bcd [of 10 "unat (freq (vfo_x st (vfo st)))" "[]"] by (simp add: bcd_def)
  show ?thesis
    unfolding res using lb dec by auto
qed

theorem read_freq_reply_witness:
  "(14074000 :: nat) < 10 ^ 10
   \<and> (\<exists>st' bcd. frame_parse 6
          (example_state\<lparr>frame := [0xFE, 0xFE, 0x00, 0xA4, 0x03, 0xFD] @ replicate 250 0\<rparr>) = Inr st'
        \<and> tx st' = [[0xFE, 0xFE, 0x00, 0xA4, 0x03, 0xFD],
                     [0xFE, 0xFE, 0xA4, 0xA4, 0x03] @ bcd @ [0xFD]]
        \<and> length bcd = 5
        \<and> from_bcd bcd 10 = 14074000)"
  using read_freq_reply
    [of "example_state\<lparr>frame := [0xFE, 0xFE, 0x00, 0xA4, 0x03, 0xFD] @ replicate 250 0\<rparr>"
        "replicate 250 0"]
  by (auto simp add: example_state_def)

text \<open>
  C4 as stated fails on two counts. With VFO A on 10 014 074 000 Hz, the reply to the
  request is [FE, FE, A4, A4, 03, 00, 40, 07, 14, 00, FD]: it does not begin with
  [FE, FE, A4, 00, 03], and its BCD field decodes to 14 074 000, not to the VFO's
  frequency.
\<close>

theorem read_freq_reply_counterexample:
  "last (tx (state_of (frame_parse 6
      (example_state\<lparr>frame := [0xFE, 0xFE, 0x00, 0xA4, 0x03, 0xFD] @ replicate 250 0,
                      vfo_x := (vfo_x example_state)
                        (X6100_VFO_A := \<lparr>freq = 10014074000, mode = x6100_mode_usb\<rparr>)\<rparr>))))
     = [0xFE, 0xFE, 0xA4, 0xA4, 0x03, 0x00, 0x40, 0x07, 0x14, 0x00, 0xFD]
   \<and> take 5 (last (tx (state_of (frame_parse 6
      (example_state\<lparr>frame := [0xFE, 0xFE, 0x00, 0xA4, 0x03, 0xFD] @ replicate 250 0,
                      vfo_x := (vfo_x example_state)
                        (X6100_VFO_A := \<lparr>freq = 10014074000, mode = x6100_mode_usb\<rparr>)\<rparr>)))))
     \<noteq> [0xFE, 0xFE, 0xA4, 0x00, 0x03]
   \<and> from_bcd (drop 5 (last (tx (state_of (frame_parse 6
      (example_state\<lparr>frame := [0xFE, 0xFE, 0x00, 0xA4, 0x03, 0xFD] @ replicate 250 0,
                      vfo_x := (vfo_x example_state)
                        (X6100_VFO_A := \<lparr>freq = 10014074000, mode = x6100_mode_usb\<rparr>)\<rparr>)))))) 10
     \<noteq> unat (freq (vfo_x
      (example_state\<lparr>frame := [0xFE, 0xFE, 0x00, 0xA4, 0x03, 0xFD] @ replicate 250 0,
                      vfo_x := (vfo_x example_state)
                        (X6100_VFO_A := \<lparr>freq = 10014074000, mode = x6100_mode_usb\<rparr>)\<rparr>)
      X6100_VFO_A))
   \<and> vfo example_state = X6100_VFO_A"
proof -
  let ?st = "example_state\<lparr>frame := [0xFE, 0xFE, 0x00, 0xA4, 0x03, 0xFD] @ replicate 250 0,
                      vfo_x := (vfo_x example_state)
                        (X6100_VFO_A := \<lparr>freq = 10014074000, mode = x6100_mode_usb\<rparr>)\<rparr>"
  obtain fr' where "frame_parse 6 ?st =
     Inr (?st\<lparr>frame := fr',
            tx := tx ?st @ [[0xFE, 0xFE, 0x00, 0xA4, 0x03, 0xFD],
                           [0xFE, 0xFE, 0xA4, 0xA4, 0x03]
                             @ to_bcd (unat (freq (vfo_x ?st (vfo ?st)))) 10 @ [0xFD]]\<rparr>)"
    using frame_parse_rd_freq [of ?st "replicate 250 0"] by auto
  then have "last (tx (state_of (frame_parse 6 ?st)))
      = [0xFE, 0xFE, 0xA4, 0xA4, 0x03, 0x00, 0x40, 0x07, 0x14, 0x00, 0xFD]"
    by (simp add: example_state_def to_bcd_def to_bcd_bytes_numeral)
  then show ?thesis
    by (simp add: from_bcd_def example_state_def)
qed

subsection \<open>Selected-VFO frequency\<close>

lemma to_bcd_bytes_no_end: "b \<in> set (to_bcd_bytes n v) \<Longrightarrow> b \<noteq> FRAME_END"
proof (induction n arbitrary: v)
  case 0
  then show ?case by simp
next
  case (Suc n)
  define B :: byte where "B = of_nat (v mod 10 + 16 * (v div 10 mod 10))"
  have "unat B = v mod 10 + 16 * (v div 10 mod 10)"
    unfolding B_def by (rule unat_bcd_byte) simp_all
  moreover have "v mod 10 < 10" "v div 10 mod 10 < 10" by simp_all
  ultimately have "unat B < 253" by linarith
  then have B: "B \<noteq> FRAME_END" by auto
  have "to_bcd_bytes (Suc n) v = B # to_bcd_bytes n (v div 100)"
    by (simp only: to_bcd_bytes.simps B_def)
  then have "b = B \<or> b \<in> set (to_bcd_bytes n (v div 100))"
    using Suc.prems by simp
  then show ?case
    using B Suc.IH by blast
qed

lemma to_bcd_no_end: "FRAME_END \<notin> set (to_bcd v d)"
  using to_bcd_bytes_no_end by (auto simp add: to_bcd_def)

lemma set_freq_eq:
  "\<exists>fb cs. set_freq f s =
     s\<lparr>vfo_x := (vfo_x s)(vfo s := (vfo_x s (vfo s))\<lparr>freq := f\<rparr>), freq_band := fb, calls := cs\<rparr>"
proof (cases "bands s f")
  case None
  then have "set_freq f s =
     s\<lparr>vfo_x := (vfo_x s)(vfo s := (vfo_x s (vfo s))\<lparr>freq := f\<rparr>), freq_band := freq_band s,
       calls := calls s @ [Radio_set_freq f, Event_screen_update]\<rparr>"
    by (simp add: set_freq_def params_bands_find_def radio_set_freq_def event_send_def)
  then show ?thesis by blast
next
  case (Some b)
  then have "set_freq f s =
     s\<lparr>vfo_x := (vfo_x s)(vfo s := (vfo_x s (vfo s))\<lparr>freq := f\<rparr>), freq_band := b,
       calls := calls s @ [Bands_activate b, Radio_set_freq f, Event_screen_update]\<rparr>"
    by (simp add: set_freq_def params_bands_find_def bands_activate_def radio_set_freq_def
        event_send_def)
  then show ?thesis by blast
qed

lemma switch_sel_freq_query:
  assumes "frame s ! 4 = C_SEND_SEL_FREQ" and "frame s ! 6 = FRAME_END"
  shows "frame_parse_switch s =
     send_frame 12 (s\<lparr>frame := store_at 6
        (to_bcd (unat (freq (vfo_x s (if frame s ! 5 = 0 then X6100_VFO_A else X6100_VFO_B)))) 10)
        (frame s)\<rparr>)"
  using assms by (simp add: frame_parse_switch_def)

lemma switch_sel_freq_set:
  assumes "frame s ! 4 = C_SEND_SEL_FREQ" and "frame s ! 6 \<noteq> FRAME_END"
    and "length (frame s) = 256"
  shows "\<exists>s'. frame_parse_switch s = Inr s'
     \<and> tx s' = tx s @ [[frame s ! 0, frame s ! 1, frame s ! 2, frame s ! 3, CODE_OK, FRAME_END]]
     \<and> rx s' = rx s
     \<and> freq (vfo_x s' (if frame s ! 5 = 0 then X6100_VFO_A else X6100_VFO_B))
         = of_nat (from_bcd (drop 6 (frame s)) 10)"
proof -
  define f :: "64 word" where "f = of_nat (from_bcd (drop 6 (frame s)) 10)"
  define sel where "sel = (if frame s ! 5 = 0 then X6100_VFO_A else X6100_VFO_B)"
  define s1 where "s1 = s\<lparr>vfo_x := (vfo_x s)(sel := (vfo_x s sel)\<lparr>freq := f\<rparr>)\<rparr>"
  define s2 where "s2 = (if vfo s1 = sel then set_freq f s1 else s1)"
  have sw: "frame_parse_switch s = send_code CODE_OK s2"
    using assms(1,2) by (simp add: frame_parse_switch_def Let_def s2_def s1_def sel_def f_def)
  obtain fb cs where sf: "set_freq f s1 =
     s1\<lparr>vfo_x := (vfo_x s1)(vfo s1 := (vfo_x s1 (vfo s1))\<lparr>freq := f\<rparr>), freq_band := fb, calls := cs\<rparr>"
    using set_freq_eq by blast
  have fr2: "frame s2 = frame s" and tx2: "tx s2 = tx s" and rx2: "rx s2 = rx s"
    and fq: "freq (vfo_x s2 sel) = f"
    by (simp_all add: s2_def sf) (simp_all add: s1_def)
  have "send_code CODE_OK s2 =
     Inr (s2\<lparr>frame := (frame s2)[4 := CODE_OK, 5 := FRAME_END],
            tx := tx s2 @ [[frame s2 ! 0, frame s2 ! 1, frame s2 ! 2, frame s2 ! 3, CODE_OK, FRAME_END]]\<rparr>)"
    using assms(3) by (intro send_code_reply) (simp add: fr2)
  then show ?thesis
    unfolding sw using fq by (simp add: fr2 tx2 rx2 sel_def f_def)
qed


lemma unat_freq: "v < 10 ^ 10 \<Longrightarrow> unat (of_nat v :: 64 word) = v"
  by (simp add: unat_of_nat)

text \<open>
  C6. For the dual-shape selected-VFO-frequency opcode 0x25: take any frequency \<open>v\<close>
  representable in the 10-digit BCD payload, a set-form frame carrying it for the VFO
  that selector \<open>s\<close> names (0x00 is VFO A, any other byte VFO B), directly followed
  on the line by a query-form frame whose selector \<open>q\<close> names the same VFO. Two
  rounds of the protocol loop read both frames, and write the echo of the set frame,
  the success reply, the echo of the query, and the query reply, whose BCD field is
  the encoding of \<open>v\<close> and so decodes to the just-set value. The address and selector
  bytes are not the terminator, as in any frame the framer can deliver whole.
\<close>

theorem sel_freq_set_then_query:
  assumes v: "v < 10 ^ 10"
    and same: "(s = 0) = (q = 0)"
    and noend: "FRAME_END \<notin> {d1, a1, s, d2, a2, q}"
    and rx: "rx st = [0xFE, 0xFE, d1, a1, 0x25, s] @ to_bcd v 10 @ [0xFD]
                     @ [0xFE, 0xFE, d2, a2, 0x25, q, 0xFD] @ rest"
  shows "\<exists>st'. cat_thread 2 st = Some (Inr st')
     \<and> tx st' = tx st @ [[0xFE, 0xFE, d1, a1, 0x25, s] @ to_bcd v 10 @ [0xFD],
                          [0xFE, 0xFE, a1, 0xA4, 0xFB, 0xFD],
                          [0xFE, 0xFE, d2, a2, 0x25, q, 0xFD],
                          [0xFE, 0xFE, a2, 0xA4, 0x25, q] @ to_bcd v 10 @ [0xFD]]
     \<and> from_bcd (to_bcd v 10) 10 = v
     \<and> rx st' = rest"
proof -
  define sel where "sel = (if s = 0 then X6100_VFO_A else X6100_VFO_B)"
  have sel_q: "(if q = 0 then X6100_VFO_A else X6100_VFO_B) = sel"
    using same by (simp add: sel_def)
  have "length (to_bcd v 10) = 5"
    by (simp add: length_to_bcd)
  then obtain b0 b1 b2 b3 b4 where b: "to_bcd v 10 = [b0, b1, b2, b3, b4]"
    by (auto simp add: numeral_eq_Suc length_Suc_conv)
  have bne: "b0 \<noteq> FRAME_END" "b1 \<noteq> FRAME_END" "b2 \<noteq> FRAME_END" "b3 \<noteq> FRAME_END"
      "b4 \<noteq> FRAME_END"
    using to_bcd_no_end [of v 10] by (auto simp add: b)
  have dec: "from_bcd ([b0, b1, b2, b3, b4] @ tl) 10 = v" for tl
    using from_to_bcd [of 10 v tl] v by (simp add: b)

  \<comment> \<open>first round: the set form\<close>
  define st1 where "st1 = st\<lparr>frame := [0xFE, 0xFE, d1, a1, 0x25, s, b0, b1, b2, b3, b4, 0xFD] @ replicate 244 0,
      rx := [0xFE, 0xFE, d2, a2, 0x25, q, 0xFD] @ rest\<rparr>"
  have "frame_get st = Some (of_nat (Suc (length [0xFE, 0xFE, d1, a1, 0x25, s, b0, b1, b2, b3, b4])),
      st\<lparr>frame := [0xFE, 0xFE, d1, a1, 0x25, s, b0, b1, b2, b3, b4] @ FRAME_END
               # replicate (255 - length [0xFE, 0xFE, d1, a1, 0x25, s, b0, b1, b2, b3, b4]) 0,
         rx := [0xFE, 0xFE, d2, a2, 0x25, q, 0xFD] @ rest\<rparr>)"
    using noend bne by (intro frame_get_terminated) (simp_all add: rx b)
  then have g1: "frame_get st = Some (12, st1)"
    by (simp add: st1_def)
  define s1 where "s1 = prepare_answer (st1\<lparr>tx := tx st1 @ [take (unat (12 :: 16 word)) (frame st1)]\<rparr>)"
  have fr1: "frame s1 = [0xFE, 0xFE, a1, 0xA4, 0x25, s, b0, b1, b2, b3, b4, 0xFD] @ replicate 244 0"
    by (simp add: s1_def frame_prepare_answer st1_def)
  have tx1: "tx s1 = tx st @ [[0xFE, 0xFE, d1, a1, 0x25, s, b0, b1, b2, b3, b4, 0xFD]]"
    and rx1: "rx s1 = [0xFE, 0xFE, d2, a2, 0x25, q, 0xFD] @ rest"
    by (simp_all add: s1_def prepare_answer_eq st1_def)
  have p1: "frame_parse 12 st1 = frame_parse_switch s1"
    unfolding s1_def by (intro frame_parse_echo) (simp_all add: st1_def)
  obtain s2 where s2: "frame_parse_switch s1 = Inr s2"
    and tx2: "tx s2 = tx s1 @ [[frame s1 ! 0, frame s1 ! 1, frame s1 ! 2, frame s1 ! 3, CODE_OK, FRAME_END]]"
    and rx2: "rx s2 = rx s1"
    and fq2: "freq (vfo_x s2 (if frame s1 ! 5 = 0 then X6100_VFO_A else X6100_VFO_B))
         = of_nat (from_bcd (drop 6 (frame s1)) 10)"
    using switch_sel_freq_set [of s1] bne(1) by (auto simp add: fr1)
  have fq2': "freq (vfo_x s2 sel) = of_nat v"
    using fq2 dec by (simp add: fr1 sel_def)
  have body1: "cat_thread_body st = Some (Inr s2)"
    by (simp add: cat_thread_body_always g1 p1 s2)

  \<comment> \<open>second round: the query form\<close>
  define st3 where "st3 = s2\<lparr>frame := [0xFE, 0xFE, d2, a2, 0x25, q, 0xFD] @ replicate 249 0, rx := rest\<rparr>"
  have "frame_get s2 = Some (of_nat (Suc (length [0xFE, 0xFE, d2, a2, 0x25, q])),
      s2\<lparr>frame := [0xFE, 0xFE, d2, a2, 0x25, q] @ FRAME_END
               # replicate (255 - length [0xFE, 0xFE, d2, a2, 0x25, q]) 0,
         rx := rest\<rparr>)"
    using noend by (intro frame_get_terminated) (simp_all add: rx2 rx1)
  then have g2: "frame_get s2 = Some (7, st3)"
    by (simp add: st3_def)
  define s4 where "s4 = prepare_answer (st3\<lparr>tx := tx st3 @ [take (unat (7 :: 16 word)) (frame st3)]\<rparr>)"
  have fr4: "frame s4 = [0xFE, 0xFE, a2, 0xA4, 0x25, q, 0xFD] @ replicate 249 0"
    by (simp add: s4_def frame_prepare_answer st3_def)
  have tx4: "tx s4 = tx s2 @ [[0xFE, 0xFE, d2, a2, 0x25, q, 0xFD]]"
    and rx4: "rx s4 = rest" and vx4: "vfo_x s4 = vfo_x s2"
    by (simp_all add: s4_def prepare_answer_eq st3_def)
  have p2: "frame_parse 7 st3 = frame_parse_switch s4"
    unfolding s4_def by (intro frame_parse_echo) (simp_all add: st3_def)
  have "frame_parse_switch s4 = send_frame 12 (s4\<lparr>frame := store_at 6
        (to_bcd (unat (freq (vfo_x s4 (if frame s4 ! 5 = 0 then X6100_VFO_A else X6100_VFO_B)))) 10)
        (frame s4)\<rparr>)"
    by (intro switch_sel_freq_query) (simp_all add: fr4)
  also have "(if frame s4 ! 5 = 0 then X6100_VFO_A else X6100_VFO_B) = sel"
    using sel_q by (simp add: fr4)
  also have "to_bcd (unat (freq (vfo_x s4 sel))) 10 = [b0, b1, b2, b3, b4]"
    by (simp add: vx4 fq2' unat_freq [OF v] b)
  also have "send_frame 12 (s4\<lparr>frame := store_at 6 [b0, b1, b2, b3, b4] (frame s4)\<rparr>)
     = Inr (s4\<lparr>frame := take 6 (frame s4) @ [b0, b1, b2, b3, b4] @ FRAME_END # drop (6 + 6) (frame s4),
            tx := tx s4 @ [take 6 (frame s4) @ [b0, b1, b2, b3, b4] @ [FRAME_END]]\<rparr>)"
    using send_frame_bcd_reply [of "frame s4" "[b0, b1, b2, b3, b4]" 6 s4] by (simp add: fr4)
  finally have sw4: "frame_parse_switch s4
     = Inr (s4\<lparr>frame := take 6 (frame s4) @ [b0, b1, b2, b3, b4] @ FRAME_END # drop (6 + 6) (frame s4),
            tx := tx s4 @ [take 6 (frame s4) @ [b0, b1, b2, b3, b4] @ [FRAME_END]]\<rparr>)" .
  define s5 where "s5 = s4\<lparr>frame := take 6 (frame s4) @ [b0, b1, b2, b3, b4] @ FRAME_END # drop (6 + 6) (frame s4),
            tx := tx s4 @ [take 6 (frame s4) @ [b0, b1, b2, b3, b4] @ [FRAME_END]]\<rparr>"
  have body2: "cat_thread_body s2 = Some (Inr s5)"
    by (simp add: cat_thread_body_always g2 p2 sw4 s5_def)
  have "cat_thread (Suc (Suc 0)) st = Some (Inr s5)"
    by (simp add: body1 body2)
  then have run: "cat_thread 2 st = Some (Inr s5)"
    by (simp add: numeral_2_eq_2)
  have "tx s5 = tx st @ [[0xFE, 0xFE, d1, a1, 0x25, s] @ to_bcd v 10 @ [0xFD],
                          [0xFE, 0xFE, a1, 0xA4, 0xFB, 0xFD],
                          [0xFE, 0xFE, d2, a2, 0x25, q, 0xFD],
                          [0xFE, 0xFE, a2, 0xA4, 0x25, q] @ to_bcd v 10 @ [0xFD]]"
    by (simp add: s5_def tx4 tx2 tx1 fr4 fr1 b)
  moreover have "from_bcd (to_bcd v 10) 10 = v"
    using dec [of "[]"] by (simp add: b)
  moreover have "rx s5 = rest"
    by (simp add: s5_def rx4)
  ultimately show ?thesis
    using run by blast
qed


theorem sel_freq_set_then_query_witness:
  "(7030000 :: nat) < 10 ^ 10
   \<and> (\<exists>st'. cat_thread 2
          (example_state\<lparr>rx := [0xFE, 0xFE, 0xA4, 0xE0, 0x25, 0x01, 0x00, 0x00, 0x03, 0x07, 0x00, 0xFD,
                                 0xFE, 0xFE, 0xA4, 0xE0, 0x25, 0x01, 0xFD]\<rparr>) = Some (Inr st')
        \<and> tx st' = [[0xFE, 0xFE, 0xA4, 0xE0, 0x25, 0x01, 0x00, 0x00, 0x03, 0x07, 0x00, 0xFD],
                     [0xFE, 0xFE, 0xE0, 0xA4, 0xFB, 0xFD],
                     [0xFE, 0xFE, 0xA4, 0xE0, 0x25, 0x01, 0xFD],
                     [0xFE, 0xFE, 0xE0, 0xA4, 0x25, 0x01, 0x00, 0x00, 0x03, 0x07, 0x00, 0xFD]]
        \<and> from_bcd [0x00, 0x00, 0x03, 0x07, 0x00] 10 = 7030000)"
  using sel_freq_set_then_query
    [of 7030000 "0x01" "0x01" "0xA4" "0xE0" "0xA4" "0xE0"
        "example_state\<lparr>rx := [0xFE, 0xFE, 0xA4, 0xE0, 0x25, 0x01, 0x00, 0x00, 0x03, 0x07, 0x00, 0xFD,
                                0xFE, 0xFE, 0xA4, 0xE0, 0x25, 0x01, 0xFD]\<rparr>"
        "[]"]
  by (simp add: to_bcd_def to_bcd_bytes_numeral example_state_def) blast

subsection \<open>Further properties\<close>

text \<open>
  X1. When the line holds at least 256 bytes and none of the first 256 is the terminator,
  \<^verbatim>\<open>frame_get\<close> returns length 0; it has consumed exactly these 256 bytes, which fill
  the buffer.
\<close>

theorem frame_get_abandons_unterminated:
  assumes "256 \<le> length (rx st)" and "FRAME_END \<notin> set (take 256 (rx st))"
  shows "frame_get st = Some (0, st\<lparr>frame := take 256 (rx st), rx := drop 256 (rx st)\<rparr>)"
  using assms by (rule frame_get_overflow)

theorem frame_get_abandons_unterminated_witness:
  "frame_get (example_state\<lparr>rx := replicate 256 0x11 @ [0xFD]\<rparr>)
     = Some (0, example_state\<lparr>frame := replicate 256 0x11, rx := [0xFD]\<rparr>)"
  using frame_get_abandons_unterminated [of "example_state\<lparr>rx := replicate 256 0x11 @ [0xFD]\<rparr>"]
  by (simp add: example_state_def)

lemma switch_default:
  assumes "frame s ! 4 \<notin> {C_RD_FREQ, C_RD_MODE, C_SET_FREQ, C_SET_MODE, C_CTL_PTT, C_SET_VFO,
                           C_SEND_SEL_FREQ, C_SEND_SEL_MODE}"
  shows "frame_parse_switch s = send_code CODE_NG s"
  using assms by (simp add: frame_parse_switch_def)

text \<open>
  X2. For every well-formed frame whose opcode is none of the eight the dispatcher
  knows, the dispatcher writes the echo and the six-byte reply carrying the failure
  code 0xFA, and changes nothing but the buffer and the sent bytes.
\<close>

theorem unknown_opcode_rejected:
  assumes "length (frame st) = 256"
    and "frame st ! 0 = FRAME_PRE" and "frame st ! 1 = FRAME_PRE"
    and "len \<noteq> 0" and "unat len \<le> 256" and "frame st ! (unat len - 1) = FRAME_END"
    and "frame st ! 4 \<notin> {C_RD_FREQ, C_RD_MODE, C_SET_FREQ, C_SET_MODE, C_CTL_PTT, C_SET_VFO,
                            C_SEND_SEL_FREQ, C_SEND_SEL_MODE}"
  shows "\<exists>st'. frame_parse len st = Inr st'
           \<and> tx st' = tx st @ [take (unat len) (frame st),
                                [FRAME_PRE, FRAME_PRE, frame st ! 3, 0xA4, CODE_NG, FRAME_END]]
           \<and> st'\<lparr>frame := frame st, tx := tx st\<rparr> = st"
proof -
  define s1 where "s1 = prepare_answer (st\<lparr>tx := tx st @ [take (unat len) (frame st)]\<rparr>)"
  have fr1: "frame s1 = (frame st)[2 := frame st ! 3, 3 := 0xA4]"
    by (simp add: s1_def frame_prepare_answer)
  have len1: "length (frame s1) = 256"
    using assms(1) by (simp add: fr1)
  have parse: "frame_parse len st = frame_parse_switch s1"
    unfolding s1_def using assms(2,4,5,6) by (intro frame_parse_echo) simp_all
  have "frame s1 ! 4 = frame st ! 4"
    by (simp add: fr1)
  then have "frame_parse_switch s1 = send_code CODE_NG s1"
    using assms(7) by (intro switch_default) simp
  also have "\<dots> = Inr (s1\<lparr>frame := (frame s1)[4 := CODE_NG, 5 := FRAME_END],
            tx := tx s1 @ [[frame s1 ! 0, frame s1 ! 1, frame s1 ! 2, frame s1 ! 3,
                            CODE_NG, FRAME_END]]\<rparr>)"
    by (rule send_code_reply [OF len1])
  finally have res: "frame_parse len st =
        Inr (s1\<lparr>frame := (frame s1)[4 := CODE_NG, 5 := FRAME_END],
            tx := tx s1 @ [[frame s1 ! 0, frame s1 ! 1, frame s1 ! 2, frame s1 ! 3,
                            CODE_NG, FRAME_END]]\<rparr>)"
    using parse by simp
  have bytes: "frame s1 ! 0 = FRAME_PRE" "frame s1 ! 1 = FRAME_PRE"
      "frame s1 ! 2 = frame st ! 3" "frame s1 ! 3 = 0xA4"
    using assms(1,2,3) by (simp_all add: fr1)
  show ?thesis
    unfolding res using bytes by (simp add: s1_def prepare_answer_eq)
qed

theorem unknown_opcode_rejected_witness:
  "\<exists>st'. frame_parse 6
       (example_state\<lparr>frame := [0xFE, 0xFE, 0xA4, 0xE0, 0x19, 0xFD] @ replicate 250 0\<rparr>)
         = Inr st'
      \<and> tx st' = [[0xFE, 0xFE, 0xA4, 0xE0, 0x19, 0xFD], [0xFE, 0xFE, 0xE0, 0xA4, 0xFA, 0xFD]]"
  using unknown_opcode_rejected
    [of "example_state\<lparr>frame := [0xFE, 0xFE, 0xA4, 0xE0, 0x19, 0xFD] @ replicate 250 0\<rparr>" 6]
  by (simp add: example_state_def) blast

end
